theory Spec2Isabelle
  imports Main "HOL-Library.Word"
begin

section \<open>JavaScript strings\<close>

text \<open>
  A JavaScript string is a sequence of UTF-16 code units. The rule only ever compares
  code units and tests them for white space, so a code unit is a 16-bit word and no
  arithmetic is done on it.
\<close>

type_synonym codeunit = "16 word"
type_synonym jsstring = "codeunit list"

text \<open>An ASCII literal as a JavaScript string (used to write concrete inputs).\<close>

definition js :: "string \<Rightarrow> jsstring" where
  "js s = map (\<lambda>c. word_of_nat (of_char c)) s"

text \<open>
  The ECMAScript productions \<open>LineTerminator\<close> and \<open>WhiteSpace\<close>. The regular
  expression class \<^verbatim>\<open>\s\<close> and \<^verbatim>\<open>String.prototype.trim\<close> both use their union;
  the regular expression \<^verbatim>\<open>.\<close> (without the \<^verbatim>\<open>s\<close> flag) is every code unit that is
  not a line terminator.
\<close>

definition isLineTerminator :: "codeunit \<Rightarrow> bool" where
  "isLineTerminator c = (c = 0x000A \<or> c = 0x000D \<or> c = 0x2028 \<or> c = 0x2029)"

definition isWhiteSpace :: "codeunit \<Rightarrow> bool" where
  "isWhiteSpace c =
     (c = 0x0009 \<or> c = 0x000B \<or> c = 0x000C \<or> c = 0x0020 \<or> c = 0x00A0 \<or> c = 0x1680 \<or>
      (0x2000 \<le> c \<and> c \<le> 0x200A) \<or> c = 0x202F \<or> c = 0x205F \<or> c = 0x3000 \<or> c = 0xFEFF)"

definition isSpace :: "codeunit \<Rightarrow> bool" where
  "isSpace c = (isWhiteSpace c \<or> isLineTerminator c)"

definition space :: codeunit where "space = 0x0020"
definition doubleQuote :: codeunit where "doubleQuote = 0x0022"
definition singleQuote :: codeunit where "singleQuote = 0x0027"
definition backtick :: codeunit where "backtick = 0x0060"

text \<open>\<^verbatim>\<open>s.trim()\<close>\<close>

definition trim :: "jsstring \<Rightarrow> jsstring" where
  "trim s = rev (dropWhile isSpace (rev (dropWhile isSpace s)))"

text \<open>
  \<^verbatim>\<open>s.split(/\s+/)\<close>: the pieces between the maximal runs of white space. A run at the
  start or at the end of the string leaves an empty piece there, and the empty string
  splits into one empty piece.
\<close>

function split_ws :: "jsstring \<Rightarrow> jsstring list" where
  "split_ws s =
     (case dropWhile (\<lambda>c. \<not> isSpace c) s of
        [] \<Rightarrow> [s]
      | r # rest \<Rightarrow> takeWhile (\<lambda>c. \<not> isSpace c) s # split_ws (dropWhile isSpace rest))"
  by pat_completeness auto
termination
proof (relation "measure length")
  show "wf (measure length)" by simp
next
  fix s :: jsstring and r rest
  assume d: "dropWhile (\<lambda>c. \<not> isSpace c) s = r # rest"
  have "length (dropWhile isSpace rest) \<le> length rest"
    by (rule length_dropWhile_le)
  moreover have "length (r # rest) \<le> length s"
    unfolding d [symmetric] by (rule length_dropWhile_le)
  ultimately show "(dropWhile isSpace rest, s) \<in> measure length"
    by simp
qed

text \<open>\<^verbatim>\<open>parts.join(sep)\<close>\<close>

fun join :: "jsstring \<Rightarrow> jsstring list \<Rightarrow> jsstring" where
  "join sep [] = []"
| "join sep [x] = x"
| "join sep (x # y # ys) = x @ sep @ join sep (y # ys)"

text \<open>\<^verbatim>\<open>s.split(/\s+/).filter((cls) => cls.trim().length > 0)\<close>\<close>

definition classTokens :: "jsstring \<Rightarrow> jsstring list" where
  "classTokens s = filter (\<lambda>cls. length (trim cls) > 0) (split_ws s)"

section \<open>Syntax tree nodes\<close>

text \<open>
  The nodes the rule looks at. A \<open>Literal\<close> carries its value, which the rule only uses
  when it is a string. A \<open>TemplateLiteral\<close> carries its interpolated expressions and the
  cooked text of its quasis (\<open>None\<close> where \<^verbatim>\<open>quasi.value?.cooked\<close> is missing). Every
  other node type is \<open>OtherNode\<close>.
\<close>

datatype literal_value = StringValue jsstring | OtherValue

datatype node =
    Literal literal_value
  | TemplateLiteral (expressions: "node list") (quasis: "jsstring option list")
  | JSXExpressionContainer node
  | OtherNode

fun isLiteral :: "node \<Rightarrow> bool" where
  "isLiteral (Literal v) = True"
| "isLiteral n = False"

fun isTemplateLiteral :: "node \<Rightarrow> bool" where
  "isTemplateLiteral (TemplateLiteral es qs) = True"
| "isTemplateLiteral n = False"

fun isJSXExpressionContainer :: "node \<Rightarrow> bool" where
  "isJSXExpressionContainer (JSXExpressionContainer e) = True"
| "isJSXExpressionContainer n = False"

record jsx_attribute =
  attr_name :: jsstring
  attr_value :: "node option"

section \<open>extractClassNames\<close>

text \<open>
  The loop over the quasis of a template literal:
  \<^verbatim>\<open>const cooked = quasi.value?.cooked || ''; if (cooked.trim()) parts.push(cooked.trim())\<close>
\<close>

fun quasiParts :: "jsstring option list \<Rightarrow> jsstring list" where
  "quasiParts [] = []"
| "quasiParts (quasi # rest) =
     (let cooked = (case quasi of None \<Rightarrow> [] | Some c \<Rightarrow> c) in
      if trim cooked \<noteq> [] then trim cooked # quasiParts rest else quasiParts rest)"

function extractClassNames :: "node option \<Rightarrow> jsstring list" where
  "extractClassNames None = []"
| "extractClassNames (Some (Literal (StringValue classString))) = classTokens classString"
| "extractClassNames (Some (Literal OtherValue)) = []"
| "extractClassNames (Some (TemplateLiteral es qs)) =
     (if length es > 0 then []
      else classTokens (join [space] (quasiParts qs)))"
| "extractClassNames (Some (JSXExpressionContainer e)) = extractClassNames (Some e)"
| "extractClassNames (Some OtherNode) = []"
  by pat_completeness auto
termination
  by (relation "measure (\<lambda>v. case v of None \<Rightarrow> 0 | Some n \<Rightarrow> size n)") auto

declare split_ws.simps [simp del]

section \<open>The design system and the canonicalization function\<close>

text \<open>
  The design system is a handle of the external stylesheet library. What its method
  \<^verbatim>\<open>canonicalizeCandidates([className], {rem})[0]\<close> does on one token is either to throw
  or to return the first element of the array it builds: a string, or \<open>None\<close> for
  \<^verbatim>\<open>undefined\<close> (an empty array).
\<close>

datatype design_system = DesignSystem nat

datatype canon_result = Throws | Returns "jsstring option"

type_synonym canonicalizer = "int \<Rightarrow> jsstring \<Rightarrow> canon_result"

text \<open>An exception value, named by its message.\<close>

datatype exn = Error jsstring

text \<open>
  The promise that \<^verbatim>\<open>__unstable__loadDesignSystem(cssContent, {base: basePath})\<close>
  returns, named by the request that made it.
\<close>

datatype promise = LoadPromise (cssContent: jsstring) (basePath: jsstring)

section \<open>The environment of a check\<close>

text \<open>
  What the rule reads from its host at one call: the lint context
  (\<^verbatim>\<open>context.getFilename()\<close>, \<^verbatim>\<open>sourceCode.getText(node)\<close>), the process
  (\<^verbatim>\<open>process.cwd()\<close>), the file system (\<^verbatim>\<open>fs.existsSync\<close>, \<^verbatim>\<open>fs.readFileSync\<close>), the
  path library, and the method table of the loaded design systems
  (\<open>None\<close> where a handle has no \<^verbatim>\<open>canonicalizeCandidates\<close>). Calls that can throw
  return a sum, \<open>Inl\<close> the exception.
\<close>

record env =
  getFilename :: "exn + jsstring"
  cwd :: "exn + jsstring"
  isAbsolute :: "jsstring \<Rightarrow> bool"
  dirname :: "jsstring \<Rightarrow> jsstring"
  resolve :: "jsstring \<Rightarrow> jsstring \<Rightarrow> jsstring"
  existsSync :: "jsstring \<Rightarrow> bool"
  readFileSync :: "jsstring \<Rightarrow> exn + jsstring"
  getText :: "node \<Rightarrow> jsstring"
  canonicalizeCandidates :: "design_system \<Rightarrow> canonicalizer option"

section \<open>The module state\<close>

text \<open>
  The four module-level variables. \<open>None\<close> is \<^verbatim>\<open>null\<close>.
\<close>

record module_state =
  designSystemCache :: "design_system option"
  designSystemPromise :: "promise option"
  designSystemError :: "exn option"
  cssPathCache :: "jsstring option"

definition initial_state :: module_state where
  "initial_state =
     \<lparr>designSystemCache = None, designSystemPromise = None,
      designSystemError = None, cssPathCache = None\<rparr>"

text \<open>The state after \<^verbatim>\<open>Reset cache if CSS path changed\<close> has fired for \<open>cssPath\<close>.\<close>

definition reset_state :: "jsstring \<Rightarrow> module_state" where
  "reset_state cssPath =
     \<lparr>designSystemCache = None, designSystemPromise = None,
      designSystemError = None, cssPathCache = Some cssPath\<rparr>"

section \<open>resolveCssPath\<close>

definition resolveCssPath :: "env \<Rightarrow> jsstring \<Rightarrow> exn + jsstring option" where
  "resolveCssPath e cssPath =
     (if cssPath = [] then Inr None
      else if isAbsolute e cssPath then Inr (Some cssPath)
      else
        (case getFilename e of
           Inl err \<Rightarrow> Inl err
         | Inr filename \<Rightarrow>
             (let fileDir = dirname e filename;
                  relativeToFile = resolve e fileDir cssPath
              in if existsSync e relativeToFile then Inr (Some relativeToFile)
                 else
                   (case cwd e of
                      Inl err \<Rightarrow> Inl err
                    | Inr wd \<Rightarrow>
                        (let relativeToCwd = resolve e wd cssPath
                         in if existsSync e relativeToCwd then Inr (Some relativeToCwd)
                            else Inr (Some relativeToCwd))))))"

section \<open>getDesignSystemSync\<close>

text \<open>
  The body of the \<^verbatim>\<open>try\<close> block, run when no promise exists: \<open>Inl\<close> is an exception
  that leaves the block, \<open>Inr\<close> the state when the block ends (by its early
  \<^verbatim>\<open>return null\<close> or by falling through to the final \<^verbatim>\<open>return null\<close>).
\<close>

definition loadAttempt :: "env \<Rightarrow> module_state \<Rightarrow> jsstring \<Rightarrow> exn + module_state" where
  "loadAttempt e s cssPath =
     (case resolveCssPath e cssPath of
        Inl err \<Rightarrow> Inl err
      | Inr resolvedPath \<Rightarrow>
          (case resolvedPath of
             None \<Rightarrow>
               Inr (s\<lparr>designSystemError := Some (Error (js ''CSS file not found: '' @ cssPath))\<rparr>)
           | Some rp \<Rightarrow>
               if rp = [] \<or> \<not> existsSync e rp
               then Inr (s\<lparr>designSystemError := Some (Error (js ''CSS file not found: '' @ cssPath))\<rparr>)
               else
                 (case readFileSync e rp of
                    Inl err \<Rightarrow> Inl err
                  | Inr content \<Rightarrow>
                      Inr (s\<lparr>designSystemPromise := Some (LoadPromise content (dirname e rp))\<rparr>))))"

text \<open>
  The function returns the new module state and what the caller gets: \<open>Inl\<close> an
  exception that reaches the caller, \<open>Inr\<close> the returned handle (\<open>None\<close> is
  \<^verbatim>\<open>null\<close>).
\<close>

definition getDesignSystemSync ::
  "env \<Rightarrow> module_state \<Rightarrow> jsstring \<Rightarrow> module_state \<times> (exn + design_system option)" where
  "getDesignSystemSync e s cssPath =
     (let s1 = (if cssPathCache s \<noteq> Some cssPath then reset_state cssPath else s) in
      case designSystemCache s1 of
        Some ds \<Rightarrow> (s1, Inr (Some ds))
      | None \<Rightarrow>
          if designSystemError s1 \<noteq> None then (s1, Inr None)
          else if designSystemPromise s1 \<noteq> None \<and> designSystemCache s1 = None then (s1, Inr None)
          else
            (case loadAttempt e s1 cssPath of
               Inl err \<Rightarrow> (s1\<lparr>designSystemError := Some err\<rparr>, Inr None)
             | Inr s2 \<Rightarrow> (s2, Inr None)))"

text \<open>
  The two callbacks chained on the load promise, run when the load settles:
  \<^verbatim>\<open>.then((ds) => { designSystemCache = ds })\<close> and
  \<^verbatim>\<open>.catch((error) => { designSystemError = error })\<close>.
\<close>

fun settle :: "module_state \<Rightarrow> exn + design_system \<Rightarrow> module_state" where
  "settle s (Inr ds) = s\<lparr>designSystemCache := Some ds\<rparr>"
| "settle s (Inl err) = s\<lparr>designSystemError := Some err\<rparr>"

section \<open>getDesignSystemAsync\<close>

text \<open>
  The part of the asynchronous lookup that runs before its \<^verbatim>\<open>await\<close>, which is all of
  it that runs inside the caller's synchronous check. Its promise is dropped by the
  caller (\<^verbatim>\<open>.catch(() => {})\<close>), and the chained load promise never rejects, so what is
  left after the \<^verbatim>\<open>await\<close> changes no variable. An exception of the inner synchronous
  lookup would reject the dropped promise; the state it leaves is kept.
\<close>

definition getDesignSystemAsync :: "env \<Rightarrow> module_state \<Rightarrow> jsstring \<Rightarrow> module_state" where
  "getDesignSystemAsync e s cssPath =
     (let s1 = (if cssPathCache s \<noteq> Some cssPath then reset_state cssPath else s) in
      if designSystemCache s1 \<noteq> None then s1
      else if designSystemError s1 \<noteq> None then s1
      else if designSystemPromise s1 = None then fst (getDesignSystemSync e s1 cssPath)
      else s1)"

section \<open>processClasses\<close>

record issue =
  original :: jsstring
  canonical :: "jsstring option"
  index :: nat

text \<open>
  The first loop, from index \<open>i\<close> on: each token is canonicalized inside its own
  \<^verbatim>\<open>try\<close>, and the \<^verbatim>\<open>catch\<close> goes on to the next token.
\<close>

fun collectIssues :: "(jsstring \<Rightarrow> canon_result) \<Rightarrow> jsstring list \<Rightarrow> nat \<Rightarrow> issue list" where
  "collectIssues canon [] i = []"
| "collectIssues canon (className # rest) i =
     (case canon className of
        Throws \<Rightarrow> collectIssues canon rest (Suc i)
      | Returns canonicalized \<Rightarrow>
          if canonicalized \<noteq> Some className
          then \<lparr>original = className, canonical = canonicalized, index = i\<rparr>
                 # collectIssues canon rest (Suc i)
          else collectIssues canon rest (Suc i))"

text \<open>
  \<^verbatim>\<open>issues.forEach((issue) => canonicalMap.set(issue.original, issue.canonical))\<close>
\<close>

definition canonicalMapOf :: "issue list \<Rightarrow> (jsstring \<rightharpoonup> jsstring option)" where
  "canonicalMapOf issues =
     fold (\<lambda>issue m. m(original issue \<mapsto> canonical issue)) issues Map.empty"

text \<open>
  \<^verbatim>\<open>canonicalMap.get(className) || className\<close>: a missing key, \<^verbatim>\<open>undefined\<close> and the
  empty string are falsy.
\<close>

definition fixedClassName :: "(jsstring \<rightharpoonup> jsstring option) \<Rightarrow> jsstring \<Rightarrow> jsstring" where
  "fixedClassName canonicalMap className =
     (case canonicalMap className of
        Some (Some c) \<Rightarrow> if c \<noteq> [] then c else className
      | _ \<Rightarrow> className)"

definition fixedClassNames :: "(jsstring \<Rightarrow> canon_result) \<Rightarrow> jsstring list \<Rightarrow> jsstring list" where
  "fixedClassNames canon classNames =
     map (fixedClassName (canonicalMapOf (collectIssues canon classNames 0))) classNames"

definition isQuote :: "codeunit \<Rightarrow> bool" where
  "isQuote c = (c = doubleQuote \<or> c = singleQuote \<or> c = backtick)"

text \<open>
  \<^verbatim>\<open>originalText.match(/^(["'`])(.*)\1$/)\<close>: the captured quote, when the text starts
  with a quote, ends with the same one, and has no line terminator in between.
\<close>

definition quoteMatch :: "jsstring \<Rightarrow> codeunit option" where
  "quoteMatch t =
     (case t of
        [] \<Rightarrow> None
      | q # rest \<Rightarrow>
          if isQuote q \<and> rest \<noteq> [] \<and> last rest = q
             \<and> list_all (\<lambda>c. \<not> isLineTerminator c) (butlast rest)
          then Some q else None)"

text \<open>\<^verbatim>\<open>originalText.match(/^(["'`])/)\<close>\<close>

definition startQuoteMatch :: "jsstring \<Rightarrow> codeunit option" where
  "startQuoteMatch t = (case t of [] \<Rightarrow> None | q # rest \<Rightarrow> if isQuote q then Some q else None)"

text \<open>\<^verbatim>\<open>text.lastIndexOf(c)\<close>, which is \<open>-1\<close> when \<open>c\<close> does not occur.\<close>

fun lastIndexOf :: "jsstring \<Rightarrow> codeunit \<Rightarrow> int" where
  "lastIndexOf [] c = -1"
| "lastIndexOf (x # xs) c =
     (let r = lastIndexOf xs c in
      if r \<ge> 0 then r + 1 else if x = c then 0 else -1)"

definition fixedTextOf :: "node \<Rightarrow> jsstring \<Rightarrow> jsstring \<Rightarrow> jsstring" where
  "fixedTextOf classNameValue originalText fixedClassString =
     (case quoteMatch originalText of
        Some q \<Rightarrow> [q] @ fixedClassString @ [q]
      | None \<Rightarrow>
          if isTemplateLiteral classNameValue
          then [backtick] @ fixedClassString @ [backtick]
          else
            (case startQuoteMatch originalText of
               Some quote \<Rightarrow>
                 if lastIndexOf originalText quote > 0
                 then [quote] @ fixedClassString @ [quote]
                 else fixedClassString
             | None \<Rightarrow> fixedClassString))"

text \<open>
  A report of the rule. \<open>CssNotFound\<close> is the configuration error, at a location.
  \<open>NonCanonical\<close> is reported on a node with its data; its last field is the
  \<^verbatim>\<open>fix\<close> of the report: \<open>None\<close> when the report has no \<^verbatim>\<open>fix\<close> function,
  \<open>Some None\<close> when the function returns \<^verbatim>\<open>null\<close>, and \<open>Some (Some t)\<close> when it
  returns \<^verbatim>\<open>fixer.replaceText(node, t)\<close> for the node of the report.
\<close>

datatype report =
    CssNotFound (loc_line: nat) (loc_column: nat) (data_path: jsstring)
  | NonCanonical (report_node: node) (data_original: jsstring)
      (data_canonical: "jsstring option") (report_fix: "jsstring option option")

definition processClasses ::
  "env \<Rightarrow> canonicalizer \<Rightarrow> jsstring list \<Rightarrow> node \<Rightarrow> int \<Rightarrow> report list" where
  "processClasses e canonicalize classNames classNameValue rootFontSize =
     (let issues = collectIssues (canonicalize rootFontSize) classNames 0 in
      if length issues > 0 then
        (let originalText = getText e classNameValue;
             fixedClassString = join [space] (fixedClassNames (canonicalize rootFontSize) classNames);
             fixedText = fixedTextOf classNameValue originalText fixedClassString
         in NonCanonical classNameValue (original (hd issues)) (canonical (hd issues))
              (Some (if fixedText \<noteq> originalText then Some fixedText else None))
            # map (\<lambda>issue. NonCanonical classNameValue (original issue) (canonical issue) None)
                (tl issues))
      else [])"

section \<open>The rule\<close>

text \<open>
  The options object of the rule; \<open>None\<close> is a missing property. The root font size is
  a number that the rule only tests for falsiness and hands on to the design system.
\<close>

record options =
  options_cssPath :: "jsstring option"
  options_rootFontSize :: "int option"

text \<open>The visitor for \<^verbatim>\<open>JSXAttribute\<close> nodes, closed over \<open>cssPath\<close> and \<open>rootFontSize\<close>.\<close>

definition JSXAttribute ::
  "jsstring \<Rightarrow> int \<Rightarrow> env \<Rightarrow> module_state \<Rightarrow> jsx_attribute \<Rightarrow> module_state \<times> report list" where
  "JSXAttribute cssPath rootFontSize e s attr =
     (if attr_name attr \<noteq> js ''className'' then (s, [])
      else
        (case attr_value attr of
           None \<Rightarrow> (s, [])
         | Some v \<Rightarrow>
             (let classNameValue = (case v of JSXExpressionContainer ex \<Rightarrow> ex | _ \<Rightarrow> v) in
              if \<not> isLiteral classNameValue \<and> \<not> isTemplateLiteral classNameValue
                 \<and> \<not> isJSXExpressionContainer classNameValue
              then (s, [])
              else
                (let classNames = extractClassNames (Some classNameValue) in
                 if length classNames = 0 then (s, [])
                 else
                   (case getDesignSystemSync e s cssPath of
                      (s1, Inl err) \<Rightarrow> (s1, [])
                    | (s1, Inr None) \<Rightarrow> (getDesignSystemAsync e s1 cssPath, [])
                    | (s1, Inr (Some designSystem)) \<Rightarrow>
                        (case canonicalizeCandidates e designSystem of
                           None \<Rightarrow> (s1, [])
                         | Some canonicalize \<Rightarrow>
                             (s1, processClasses e canonicalize classNames classNameValue
                                    rootFontSize)))))))"

text \<open>
  \<^verbatim>\<open>create(context)\<close>: the reports made while the rule is created, and the visitors it
  installs: \<open>None\<close> for the empty object, else the \<^verbatim>\<open>JSXAttribute\<close> visitor.
\<close>

definition create ::
  "options option \<Rightarrow>
   report list \<times> (env \<Rightarrow> module_state \<Rightarrow> jsx_attribute \<Rightarrow> module_state \<times> report list) option" where
  "create opts =
     (let cssPath = (case opts of None \<Rightarrow> None | Some os \<Rightarrow> options_cssPath os);
          rootFontSize =
            (case (case opts of None \<Rightarrow> None | Some os \<Rightarrow> options_rootFontSize os) of
               None \<Rightarrow> 16
             | Some n \<Rightarrow> if n \<noteq> 0 then n else 16)
      in case cssPath of
           None \<Rightarrow> ([CssNotFound 1 0 (js ''not specified'')], None)
         | Some p \<Rightarrow>
             if p = [] then ([CssNotFound 1 0 (js ''not specified'')], None)
             else ([], Some (JSXAttribute p rootFontSize)))"

text \<open>
  The host walks the file and calls the visitor on each \<^verbatim>\<open>JSXAttribute\<close> node in turn,
  each call with its own environment.
\<close>

fun visitAll ::
  "(env \<Rightarrow> module_state \<Rightarrow> jsx_attribute \<Rightarrow> module_state \<times> report list) option \<Rightarrow>
   module_state \<Rightarrow> (env \<times> jsx_attribute) list \<Rightarrow> module_state \<times> report list" where
  "visitAll visitor s [] = (s, [])"
| "visitAll visitor s ((e, attr) # rest) =
     (case visitor of
        None \<Rightarrow> visitAll visitor s rest
      | Some visit \<Rightarrow>
          (case visit e s attr of
             (s1, reports) \<Rightarrow>
               (case visitAll visitor s1 rest of (s2, later) \<Rightarrow> (s2, reports @ later))))"

definition lintFile ::
  "options option \<Rightarrow> module_state \<Rightarrow> (env \<times> jsx_attribute) list \<Rightarrow> module_state \<times> report list" where
  "lintFile opts s attrs =
     (case create opts of
        (reports, visitor) \<Rightarrow>
          (case visitAll visitor s attrs of (s1, later) \<Rightarrow> (s1, reports @ later)))"

section \<open>Concrete inputs\<close>

text \<open>
  A small canonicalization function in the style of the design system: two arbitrary-value
  spellings have a scale-based canonical form, one malformed token makes it throw, and
  every other token is its own canonical form.
\<close>

definition example_canonicalize :: canonicalizer where
  "example_canonicalize rem className =
     (if className = js ''p-4px'' then Returns (Some (js ''p-1''))
      else if className = js ''m-2rem'' then Returns (Some (js ''m-8''))
      else if className = js ''w-['' then Throws
      else Returns (Some className))"

text \<open>
  The source text of a node: a string literal in double quotes, a template literal in
  backticks.
\<close>

definition example_text :: "node \<Rightarrow> jsstring" where
  "example_text n =
     (case n of
        Literal (StringValue v) \<Rightarrow> [doubleQuote] @ v @ [doubleQuote]
      | TemplateLiteral es qs \<Rightarrow>
          [backtick] @ concat (map (\<lambda>q. case q of None \<Rightarrow> [] | Some c \<Rightarrow> c) qs) @ [backtick]
      | _ \<Rightarrow> [])"

definition slash :: codeunit where "slash = 0x002F"

text \<open>
  An environment for linting the file \<open>filename\<close> from the working directory
  \<^verbatim>\<open>/app\<close>, on a file system that holds \<open>files\<close>, of which \<open>unreadable\<close> cannot be
  read. Paths are POSIX paths without dot segments.
\<close>

definition example_env :: "jsstring \<Rightarrow> jsstring list \<Rightarrow> jsstring list \<Rightarrow> env" where
  "example_env filename files unreadable =
     \<lparr>getFilename = Inr filename,
      cwd = Inr (js ''/app''),
      isAbsolute = (\<lambda>p. case p of [] \<Rightarrow> False | c # cs \<Rightarrow> c = slash),
      dirname = (\<lambda>p. rev (drop 1 (dropWhile (\<lambda>c. c \<noteq> slash) (rev p)))),
      resolve = (\<lambda>dir p. dir @ [slash] @ p),
      existsSync = (\<lambda>p. p \<in> set files),
      readFileSync =
        (\<lambda>p. if p \<in> set unreadable then Inl (Error (js ''EISDIR'')) else Inr (js ''@theme'')),
      getText = example_text,
      canonicalizeCandidates = (\<lambda>ds. Some example_canonicalize)\<rparr>"

definition env_a :: env where
  "env_a = example_env (js ''/app/a/page.jsx'') [js ''/app/a/t.css'', js ''/app/b/t.css''] []"

definition env_b :: env where
  "env_b = example_env (js ''/app/b/page.jsx'') [js ''/app/a/t.css'', js ''/app/b/t.css''] []"


definition env_unreadable :: env where
  "env_unreadable =
     example_env (js ''/app/a/page.jsx'') [js ''/app/a/t.css''] [js ''/app/a/t.css'']"

definition env_root :: env where
  "env_root = example_env (js ''/app/a/page.jsx'') [js ''/app/t.css''] []"

text \<open>The state while the load started from \<open>env_a\<close> is in flight, and once it has resolved.\<close>

definition loading_a :: module_state where
  "loading_a = fst (getDesignSystemSync env_a initial_state (js ''t.css''))"

definition loaded_a :: module_state where
  "loaded_a = settle loading_a (Inr (DesignSystem 1))"

text \<open>The state once the stylesheet configured by its absolute path has been loaded.\<close>

definition loaded_root :: module_state where
  "loaded_root =
     settle (fst (getDesignSystemSync env_root initial_state (js ''/app/t.css'')))
       (Inr (DesignSystem 2))"


definition example_attribute :: "node \<Rightarrow> jsx_attribute" where
  "example_attribute v = \<lparr>attr_name = js ''className'', attr_value = Some v\<rparr>"






section \<open>Splitting and joining class lists\<close>

lemma isSpace_space: "isSpace space"
  by (simp add: isSpace_def isWhiteSpace_def space_def)

lemma split_ws_no_space:
  assumes "\<forall>c \<in> set t. \<not> isSpace c"
  shows "split_ws t = [t]"
proof -
  from assms have d: "dropWhile (\<lambda>c. \<not> isSpace c) t = []" by simp
  show ?thesis by (subst split_ws.simps) (simp only: d list.case)
qed

lemma split_ws_token_space:
  assumes "\<forall>c \<in> set t. \<not> isSpace c" and "isSpace b"
  shows "split_ws (t @ b # rest) = t # split_ws (dropWhile isSpace rest)"
proof -
  have d: "dropWhile (\<lambda>c. \<not> isSpace c) (t @ b # rest) = b # rest"
    using assms by (simp add: dropWhile_append3)
  have tk: "takeWhile (\<lambda>c. \<not> isSpace c) (t @ b # rest) = t"
    using assms by (simp add: takeWhile_tail)
  show ?thesis by (subst split_ws.simps) (simp add: d tk)
qed

lemma split_ws_join:
  assumes "ts \<noteq> []" and "\<forall>t \<in> set ts. t \<noteq> [] \<and> (\<forall>c \<in> set t. \<not> isSpace c)"
  shows "split_ws (join [space] ts) = ts"
  using assms
proof (induction ts rule: induct_list012)
  case 1
  then show ?case by simp
next
  case (2 x)
  then show ?case by (simp add: split_ws_no_space)
next
  case (3 x y ys)
  from "3.prems" have y: "y \<noteq> []" "\<not> isSpace (hd y)" by auto
  then have "join [space] (y # ys) \<noteq> [] \<and> hd (join [space] (y # ys)) = hd y"
    by (cases ys) auto
  then have dw: "dropWhile isSpace (join [space] (y # ys)) = join [space] (y # ys)"
    using y by (cases "join [space] (y # ys)") auto
  have "split_ws (join [space] (x # y # ys))
          = x # split_ws (dropWhile isSpace (join [space] (y # ys)))"
    using "3.prems" split_ws_token_space [of x space "join [space] (y # ys)"] isSpace_space
    by simp
  with dw "3.IH"(2) "3.prems" show ?case by simp
qed

lemma trim_no_space:
  assumes "\<forall>c \<in> set t. \<not> isSpace c"
  shows "trim t = t"
proof -
  from assms have lead: "dropWhile isSpace t = t" by (cases t) auto
  from assms have "\<forall>c \<in> set (rev t). \<not> isSpace c" by simp
  then have trail: "dropWhile isSpace (rev t) = rev t" by (cases "rev t") auto
  show ?thesis by (simp add: trim_def lead trail)
qed

lemma classTokens_join:
  assumes "\<forall>t \<in> set ts. t \<noteq> [] \<and> (\<forall>c \<in> set t. \<not> isSpace c)"
  shows "classTokens (join [space] ts) = ts"
proof (cases ts)
  case Nil
  then show ?thesis by (simp add: classTokens_def split_ws_no_space trim_def)
next
  case (Cons a as)
  then have "split_ws (join [space] ts) = ts"
    using assms by (intro split_ws_join) auto
  moreover have "filter (\<lambda>cls. length (trim cls) > 0) ts = ts"
    using assms by (auto simp: filter_id_conv trim_no_space)
  ultimately show ?thesis by (simp add: classTokens_def)
qed

lemma split_ws_tokens: "t \<in> set (split_ws s) \<Longrightarrow> c \<in> set t \<Longrightarrow> \<not> isSpace c"
proof (induction s arbitrary: t rule: split_ws.induct)
  case (1 s)
  show ?case
  proof (cases "dropWhile (\<lambda>c. \<not> isSpace c) s")
    case Nil
    with "1.prems" have "t = s" by (subst (asm) split_ws.simps) simp
    moreover from Nil have "\<forall>c \<in> set s. \<not> isSpace c" by simp
    ultimately show ?thesis using "1.prems" by simp
  next
    case (Cons r rest)
    with "1.prems"
    have "t = takeWhile (\<lambda>c. \<not> isSpace c) s \<or> t \<in> set (split_ws (dropWhile isSpace rest))"
      by (subst (asm) split_ws.simps) auto
    then show ?thesis
    proof
      assume "t = takeWhile (\<lambda>c. \<not> isSpace c) s"
      with "1.prems"(2) show ?thesis by (auto dest: set_takeWhileD)
    next
      assume "t \<in> set (split_ws (dropWhile isSpace rest))"
      from "1.IH" [OF Cons this "1.prems"(2)] show ?thesis .
    qed
  qed
qed

lemma classTokens_wellformed:
  "t \<in> set (classTokens s) \<Longrightarrow> t \<noteq> [] \<and> (\<forall>c \<in> set t. \<not> isSpace c)"
  by (auto simp: classTokens_def trim_def dest: split_ws_tokens)

lemma extractClassNames_wellformed:
  "t \<in> set (extractClassNames v) \<Longrightarrow> t \<noteq> [] \<and> (\<forall>c \<in> set t. \<not> isSpace c)"
  by (induction v rule: extractClassNames.induct)
     (auto dest: classTokens_wellformed split: if_splits)

section \<open>Template literals with interpolated expressions\<close>

text \<open>
  Claim C1. A \<^verbatim>\<open>className\<close> attribute whose value is a template literal with at least one
  interpolated expression (inside its expression container, or the template literal
  itself) yields no class names, and the visitor returns with no report, hence no fix,
  and with the module state as it was.
\<close>

theorem C1_dynamic_template_skipped:
  assumes "es \<noteq> []"
    and "attr_value attr = Some (JSXExpressionContainer (TemplateLiteral es qs))
         \<or> attr_value attr = Some (TemplateLiteral es qs)"
  shows "extractClassNames (attr_value attr) = []
         \<and> JSXAttribute cssPath rootFontSize e s attr = (s, [])"
  using assms by (auto simp: JSXAttribute_def)

theorem C1_dynamic_template_skipped_witness:
  "[OtherNode] \<noteq> []
   \<and> attr_value (example_attribute (JSXExpressionContainer
         (TemplateLiteral [OtherNode] [Some (js ''p-4px ''), Some (js '' m-2rem'')])))
       = Some (JSXExpressionContainer
           (TemplateLiteral [OtherNode] [Some (js ''p-4px ''), Some (js '' m-2rem'')]))
   \<and> extractClassNames (attr_value (example_attribute (JSXExpressionContainer
         (TemplateLiteral [OtherNode] [Some (js ''p-4px ''), Some (js '' m-2rem'')])))) = []
   \<and> JSXAttribute (js ''t.css'') 16 env_b loaded_a
        (example_attribute (JSXExpressionContainer
           (TemplateLiteral [OtherNode] [Some (js ''p-4px ''), Some (js '' m-2rem'')])))
       = (loaded_a, [])"
proof -
  let ?v = "JSXExpressionContainer
              (TemplateLiteral [OtherNode] [Some (js ''p-4px ''), Some (js '' m-2rem'')])"
  have h1: "[OtherNode] \<noteq> []" by simp
  have h2: "attr_value (example_attribute ?v) = Some ?v" by (simp add: example_attribute_def)
  from C1_dynamic_template_skipped [of "[OtherNode]" "example_attribute ?v"
      "[Some (js ''p-4px ''), Some (js '' m-2rem'')]" "js ''t.css''" 16 env_b loaded_a, OF h1]
    h2 h1
  show ?thesis by simp
qed

section \<open>The issue list\<close>

lemma collectIssues_append:
  "collectIssues canon (xs @ ys) i
     = collectIssues canon xs i @ collectIssues canon ys (i + length xs)"
  by (induction xs arbitrary: i) (auto split: canon_result.splits)

lemma collectIssues_index_bounds:
  "x \<in> set (collectIssues canon cs i) \<Longrightarrow> i \<le> index x \<and> index x < i + length cs"
proof (induction cs arbitrary: i)
  case Nil
  then show ?case by simp
next
  case (Cons c cs)
  then show ?case
    by (fastforce split: canon_result.splits if_splits)
qed

lemma collectIssues_sound:
  "x \<in> set (collectIssues canon cs i) \<Longrightarrow>
     original x = cs ! (index x - i) \<and> canon (original x) = Returns (canonical x)
     \<and> canonical x \<noteq> Some (original x)"
proof (induction cs arbitrary: i)
  case Nil
  then show ?case by simp
next
  case (Cons c cs)
  show ?case
  proof (cases "x \<in> set (collectIssues canon cs (Suc i))")
    case True
    from Cons.IH [OF True] collectIssues_index_bounds [OF True]
    show ?thesis by (auto simp: Suc_diff_le)
  next
    case False
    with Cons.prems show ?thesis
      by (auto split: canon_result.splits if_splits)
  qed
qed

lemma collectIssues_complete:
  "j < length cs \<Longrightarrow> canon (cs ! j) = Returns r \<Longrightarrow> r \<noteq> Some (cs ! j) \<Longrightarrow>
     \<lparr>original = cs ! j, canonical = r, index = i + j\<rparr> \<in> set (collectIssues canon cs i)"
proof (induction cs arbitrary: i j)
  case Nil
  then show ?case by simp
next
  case (Cons c cs)
  show ?case
  proof (cases j)
    case 0
    with Cons.prems show ?thesis by simp
  next
    case (Suc k)
    with Cons.prems have "k < length cs" "canon (cs ! k) = Returns r" "r \<noteq> Some (cs ! k)"
      by simp_all
    then have "\<lparr>original = cs ! k, canonical = r, index = Suc i + k\<rparr>
                 \<in> set (collectIssues canon cs (Suc i))"
      by (rule Cons.IH)
    with Suc show ?thesis
      by (auto split: canon_result.splits)
  qed
qed

lemma collectIssues_sorted:
  "sorted_wrt (\<lambda>a b. index a < index b) (collectIssues canon cs i)"
proof (induction cs arbitrary: i)
  case Nil
  then show ?case by simp
next
  case (Cons c cs)
  have "\<And>x. x \<in> set (collectIssues canon cs (Suc i)) \<Longrightarrow> i < index x"
    using collectIssues_index_bounds by fastforce
  with Cons.IH [of "Suc i"] show ?case
    by (auto split: canon_result.splits)
qed

text \<open>
  Claim C6. A token on which the canonicalization function throws adds nothing to the
  issue list, and the loop goes on: the issues of a list around such a token are those
  of the tokens before it followed by those of the tokens after it, each at its own
  index. No index of a throwing token is in the issue list, and every token on which
  the function returns is compared: it is in the issue list, at its index and with the
  returned form, exactly when that form differs from the token.
\<close>

theorem C6_throwing_token_skipped:
  "(canon t = Throws \<longrightarrow>
      collectIssues canon (xs @ t # ys) 0
        = collectIssues canon xs 0 @ collectIssues canon ys (length xs + 1))
   \<and> (\<forall>j < length cs. canon (cs ! j) = Throws
         \<longrightarrow> j \<notin> index ` set (collectIssues canon cs 0))
   \<and> (\<forall>j < length cs. \<forall>r. canon (cs ! j) = Returns r \<longrightarrow>
         (\<lparr>original = cs ! j, canonical = r, index = j\<rparr> \<in> set (collectIssues canon cs 0)
            \<longleftrightarrow> r \<noteq> Some (cs ! j)))"
proof (intro conjI allI impI)
  assume "canon t = Throws"
  then show "collectIssues canon (xs @ t # ys) 0
        = collectIssues canon xs 0 @ collectIssues canon ys (length xs + 1)"
    by (simp add: collectIssues_append)
next
  fix j assume j: "j < length cs" and t: "canon (cs ! j) = Throws"
  show "j \<notin> index ` set (collectIssues canon cs 0)"
  proof
    assume "j \<in> index ` set (collectIssues canon cs 0)"
    then obtain x where x: "x \<in> set (collectIssues canon cs 0)" and "index x = j" by auto
    with collectIssues_sound [OF x] t show False by auto
  qed
next
  fix j r assume j: "j < length cs" and r: "canon (cs ! j) = Returns r"
  show "\<lparr>original = cs ! j, canonical = r, index = j\<rparr> \<in> set (collectIssues canon cs 0)
            \<longleftrightarrow> r \<noteq> Some (cs ! j)"
  proof
    assume "\<lparr>original = cs ! j, canonical = r, index = j\<rparr> \<in> set (collectIssues canon cs 0)"
    from collectIssues_sound [OF this] show "r \<noteq> Some (cs ! j)" by simp
  next
    assume "r \<noteq> Some (cs ! j)"
    with collectIssues_complete [where canon = canon and cs = cs and j = j and r = r and i = 0] j r
    show "\<lparr>original = cs ! j, canonical = r, index = j\<rparr> \<in> set (collectIssues canon cs 0)"
      by simp
  qed
qed

theorem C6_throwing_token_skipped_witness:
  "example_canonicalize 16 (js ''w-['') = Throws
   \<and> collectIssues (example_canonicalize 16) ([js ''p-4px''] @ js ''w-['' # [js ''m-2rem'']) 0
       = collectIssues (example_canonicalize 16) [js ''p-4px''] 0
         @ collectIssues (example_canonicalize 16) [js ''m-2rem''] (length [js ''p-4px''] + 1)
   \<and> (1::nat) < length [js ''p-4px'', js ''w-['', js ''m-2rem'']
   \<and> example_canonicalize 16 ([js ''p-4px'', js ''w-['', js ''m-2rem''] ! 1) = Throws
   \<and> 1 \<notin> index ` set (collectIssues (example_canonicalize 16)
                          [js ''p-4px'', js ''w-['', js ''m-2rem''] 0)
   \<and> (2::nat) < length [js ''p-4px'', js ''w-['', js ''m-2rem'']
   \<and> example_canonicalize 16 ([js ''p-4px'', js ''w-['', js ''m-2rem''] ! 2)
       = Returns (Some (js ''m-8''))
   \<and> \<lparr>original = js ''m-2rem'', canonical = Some (js ''m-8''), index = 2\<rparr>
       \<in> set (collectIssues (example_canonicalize 16)
                [js ''p-4px'', js ''w-['', js ''m-2rem''] 0)"
proof -
  let ?canon = "example_canonicalize 16"
  let ?cs = "[js ''p-4px'', js ''w-['', js ''m-2rem'']"
  have t: "?canon (js ''w-['') = Throws" by code_simp
  have l1: "(1::nat) < length ?cs" and l2: "(2::nat) < length ?cs" by simp_all
  have t1: "?canon (?cs ! 1) = Throws" using t by simp
  have r2: "?canon (?cs ! 2) = Returns (Some (js ''m-8''))" by code_simp
  have d: "Some (js ''m-8'') \<noteq> Some (?cs ! 2)" by code_simp
  note inst = C6_throwing_token_skipped [of ?canon "js ''w-[''" "[js ''p-4px'']" "[js ''m-2rem'']" ?cs]
  from inst t have a: "collectIssues ?canon ([js ''p-4px''] @ js ''w-['' # [js ''m-2rem'']) 0
       = collectIssues ?canon [js ''p-4px''] 0
         @ collectIssues ?canon [js ''m-2rem''] (length [js ''p-4px''] + 1)"
    by blast
  from inst l1 t1 have b: "1 \<notin> index ` set (collectIssues ?canon ?cs 0)" by blast
  from inst l2 r2 d
  have c: "\<lparr>original = ?cs ! 2, canonical = Some (js ''m-8''), index = 2\<rparr>
             \<in> set (collectIssues ?canon ?cs 0)"
    by blast
  from t a l1 t1 b l2 r2 c show ?thesis by simp
qed

section \<open>The rewritten class list\<close>

lemma fold_canonicalMap:
  "fold (\<lambda>issue m. m(original issue \<mapsto> canonical issue)) (collectIssues canon cs i) m k =
     (if k \<in> set cs \<and> (\<exists>r. canon k = Returns r \<and> r \<noteq> Some k)
      then (case canon k of Returns r \<Rightarrow> Some r | Throws \<Rightarrow> None) else m k)"
proof (induction cs arbitrary: i m)
  case Nil
  then show ?case by simp
next
  case (Cons c cs)
  show ?case
  proof (cases "canon c")
    case Throws
    then show ?thesis using Cons.IH [of "Suc i" m] by auto
  next
    case (Returns r)
    show ?thesis
    proof (cases "r = Some c")
      case True
      then show ?thesis using Returns Cons.IH [of "Suc i" m] by auto
    next
      case False
      have step:
        "fold (\<lambda>issue m. m(original issue \<mapsto> canonical issue)) (collectIssues canon (c # cs) i) m
           = fold (\<lambda>issue m. m(original issue \<mapsto> canonical issue))
               (collectIssues canon cs (Suc i)) (m(c \<mapsto> r))"
        using Returns False by simp
      show ?thesis
        unfolding step Cons.IH [of "Suc i" "m(c \<mapsto> r)"]
        using Returns False by auto
    qed
  qed
qed

lemma canonicalMapOf_collect:
  "canonicalMapOf (collectIssues canon cs i) k =
     (if k \<in> set cs \<and> (\<exists>r. canon k = Returns r \<and> r \<noteq> Some k)
      then (case canon k of Returns r \<Rightarrow> Some r | Throws \<Rightarrow> None) else None)"
  unfolding canonicalMapOf_def by (simp add: fold_canonicalMap)

text \<open>
  The map over the class names looks every token up in a table built from the whole
  issue list. Token by token that is: the canonical form when the function returns a
  non-empty string, the token itself otherwise.
\<close>

lemma fixedClassNames_map:
  "fixedClassNames canon cs =
     map (\<lambda>c. case canon c of Returns (Some t) \<Rightarrow> if t \<noteq> [] then t else c | _ \<Rightarrow> c) cs"
  unfolding fixedClassNames_def
  by (rule map_cong)
     (auto simp: fixedClassName_def canonicalMapOf_collect split: canon_result.splits option.splits)

lemma fixed_at_issue:
  assumes x: "x \<in> set (collectIssues canon cs 0)" and c: "canonical x = Some c" "c \<noteq> []"
  shows "fixedClassNames canon cs ! index x = c"
proof -
  from collectIssues_index_bounds [OF x] have lt: "index x < length cs" by simp
  from collectIssues_sound [OF x] have "canon (cs ! index x) = Returns (canonical x)" by auto
  with c lt show ?thesis by (simp add: fixedClassNames_map)
qed

text \<open>
  Claim C2. The rewritten class list has the length of the list extracted from the
  attribute value, and position by position each of its tokens is the extracted token
  or the canonical form that the function returned for it: nothing is dropped,
  duplicated or moved. When the canonical forms contain no white space, the class
  string written into the fix (the rewritten tokens joined by one space) splits back into
  exactly the rewritten class list.
\<close>

theorem C2_rewrite_preserves_tokens:
  "length (fixedClassNames canon (extractClassNames v)) = length (extractClassNames v)
   \<and> list_all2 (\<lambda>className fixed. fixed = className \<or> canon className = Returns (Some fixed))
        (extractClassNames v) (fixedClassNames canon (extractClassNames v))
   \<and> ((\<forall>className \<in> set (extractClassNames v). \<forall>t. canon className = Returns (Some t)
          \<longrightarrow> (\<forall>c \<in> set t. \<not> isSpace c))
       \<longrightarrow> classTokens (join [space] (fixedClassNames canon (extractClassNames v)))
             = fixedClassNames canon (extractClassNames v))"
proof (intro conjI impI)
  show "length (fixedClassNames canon (extractClassNames v)) = length (extractClassNames v)"
    by (simp add: fixedClassNames_map)
  show "list_all2 (\<lambda>className fixed. fixed = className \<or> canon className = Returns (Some fixed))
        (extractClassNames v) (fixedClassNames canon (extractClassNames v))"
    unfolding fixedClassNames_map
    by (auto simp: list_all2_map2 intro!: list_all2_refl split: canon_result.splits option.splits)
next
  assume h: "\<forall>className \<in> set (extractClassNames v). \<forall>t. canon className = Returns (Some t)
          \<longrightarrow> (\<forall>c \<in> set t. \<not> isSpace c)"
  have "\<forall>t \<in> set (fixedClassNames canon (extractClassNames v)).
          t \<noteq> [] \<and> (\<forall>c \<in> set t. \<not> isSpace c)"
    unfolding fixedClassNames_map using h extractClassNames_wellformed [of _ v]
    by (auto split: canon_result.splits option.splits if_splits)
  then show "classTokens (join [space] (fixedClassNames canon (extractClassNames v)))
             = fixedClassNames canon (extractClassNames v)"
    by (rule classTokens_join)
qed

theorem C2_rewrite_preserves_tokens_witness:
  "extractClassNames (Some (Literal (StringValue (js '' p-4px   m-2 m-2rem''))))
     = [js ''p-4px'', js ''m-2'', js ''m-2rem'']
   \<and> fixedClassNames (example_canonicalize 16)
        (extractClassNames (Some (Literal (StringValue (js '' p-4px   m-2 m-2rem'')))))
     = [js ''p-1'', js ''m-2'', js ''m-8'']
   \<and> length (fixedClassNames (example_canonicalize 16)
        (extractClassNames (Some (Literal (StringValue (js '' p-4px   m-2 m-2rem''))))))
     = length (extractClassNames (Some (Literal (StringValue (js '' p-4px   m-2 m-2rem'')))))
   \<and> classTokens (join [space] (fixedClassNames (example_canonicalize 16)
        (extractClassNames (Some (Literal (StringValue (js '' p-4px   m-2 m-2rem'')))))))
     = [js ''p-1'', js ''m-2'', js ''m-8'']"
proof -
  let ?v = "Some (Literal (StringValue (js '' p-4px   m-2 m-2rem'')))"
  let ?canon = "example_canonicalize 16"
  have e: "extractClassNames ?v = [js ''p-4px'', js ''m-2'', js ''m-2rem'']" by code_simp
  have f: "fixedClassNames ?canon [js ''p-4px'', js ''m-2'', js ''m-2rem'']
             = [js ''p-1'', js ''m-2'', js ''m-8'']" by code_simp
  have c1: "?canon (js ''p-4px'') = Returns (Some (js ''p-1''))" by code_simp
  have c2: "?canon (js ''m-2'') = Returns (Some (js ''m-2''))" by code_simp
  have c3: "?canon (js ''m-2rem'') = Returns (Some (js ''m-8''))" by code_simp
  have n1: "\<forall>c \<in> set (js ''p-1''). \<not> isSpace c" by code_simp
  have n2: "\<forall>c \<in> set (js ''m-2''). \<not> isSpace c" by code_simp
  have n3: "\<forall>c \<in> set (js ''m-8''). \<not> isSpace c" by code_simp
  have h: "\<forall>className \<in> set (extractClassNames ?v).
        \<forall>t. ?canon className = Returns (Some t) \<longrightarrow> (\<forall>c \<in> set t. \<not> isSpace c)"
    unfolding e using c1 c2 c3 n1 n2 n3 by simp
  from C2_rewrite_preserves_tokens [of ?canon ?v] h
  have "length (fixedClassNames ?canon (extractClassNames ?v)) = length (extractClassNames ?v)"
    and "classTokens (join [space] (fixedClassNames ?canon (extractClassNames ?v)))
           = fixedClassNames ?canon (extractClassNames ?v)"
    by blast+
  with e f show ?thesis by simp
qed

section \<open>The replacement text\<close>

lemma lastIndexOf_mem: "c \<in> set xs \<Longrightarrow> lastIndexOf xs c \<ge> 0"
  by (induction xs) (auto simp: Let_def)

lemma lastIndexOf_delimited: "lastIndexOf (q # body @ [q]) q > 0"
  using lastIndexOf_mem [of q "body @ [q]"] by (simp add: Let_def)

lemma quoteMatch_hd: "quoteMatch t = Some q' \<Longrightarrow> \<exists>rest. t = q' # rest"
  by (auto simp: quoteMatch_def split: list.splits if_splits)

lemma fixedTextOf_delimited:
  assumes "isQuote q" and "originalText = [q] @ body @ [q]"
    and "isTemplateLiteral classNameValue \<Longrightarrow> q = backtick"
  shows "fixedTextOf classNameValue originalText fixedClassString = [q] @ fixedClassString @ [q]"
proof (cases "quoteMatch originalText")
  case (Some q')
  with quoteMatch_hd [OF Some] assms(2) have "q' = q" by auto
  with Some show ?thesis by (simp add: fixedTextOf_def)
next
  case None
  show ?thesis
  proof (cases "isTemplateLiteral classNameValue")
    case True
    with None assms(3) show ?thesis by (simp add: fixedTextOf_def)
  next
    case False
    have "startQuoteMatch originalText = Some q"
      using assms(1,2) by (simp add: startQuoteMatch_def)
    moreover have "lastIndexOf originalText q > 0"
      unfolding assms(2) using lastIndexOf_delimited [of q body] by simp
    ultimately show ?thesis using None False by (simp add: fixedTextOf_def)
  qed
qed

text \<open>
  Claim C3. Let the source text of the checked node start and end with the quote
  character \<open>q\<close> (a double quote, a single quote or a backtick), where the text of a
  template literal is in backticks, as the parser has it. Then every fix the rule emits
  for the node replaces it by the rewritten class string between two \<open>q\<close>: the
  replacement begins and ends with the quote character of the source. This holds also
  when the text spans several lines, where the first pattern of the rule does not match.
\<close>

theorem C3_fix_keeps_quote:
  assumes "isQuote q"
    and "getText e classNameValue = [q] @ body @ [q]"
    and "isTemplateLiteral classNameValue \<longrightarrow> q = backtick"
    and "NonCanonical n orig canon_form (Some (Some replacement))
           \<in> set (processClasses e canonicalize classNames classNameValue rootFontSize)"
  shows "replacement
           = [q] @ join [space] (fixedClassNames (canonicalize rootFontSize) classNames) @ [q]
         \<and> hd replacement = q \<and> last replacement = q"
proof -
  let ?fcs = "join [space] (fixedClassNames (canonicalize rootFontSize) classNames)"
  have ft: "fixedTextOf classNameValue (getText e classNameValue) ?fcs = [q] @ ?fcs @ [q]"
    using assms(1,2,3) by (intro fixedTextOf_delimited) auto
  from assms(4) have "replacement = [q] @ ?fcs @ [q]"
    unfolding processClasses_def Let_def ft
    by (auto split: if_splits)
  then show ?thesis by simp
qed

theorem C3_fix_keeps_quote_witness:
  "isQuote doubleQuote
   \<and> getText env_b (Literal (StringValue (js ''p-4px'' @ [0x000A] @ js ''m-2'')))
       = [doubleQuote] @ (js ''p-4px'' @ [0x000A] @ js ''m-2'') @ [doubleQuote]
   \<and> \<not> isTemplateLiteral (Literal (StringValue (js ''p-4px'' @ [0x000A] @ js ''m-2'')))
   \<and> quoteMatch (getText env_b (Literal (StringValue (js ''p-4px'' @ [0x000A] @ js ''m-2'')))) = None
   \<and> NonCanonical (Literal (StringValue (js ''p-4px'' @ [0x000A] @ js ''m-2'')))
        (js ''p-4px'') (Some (js ''p-1''))
        (Some (Some ([doubleQuote] @ js ''p-1 m-2'' @ [doubleQuote])))
       \<in> set (processClasses env_b example_canonicalize [js ''p-4px'', js ''m-2'']
                (Literal (StringValue (js ''p-4px'' @ [0x000A] @ js ''m-2''))) 16)
   \<and> hd ([doubleQuote] @ js ''p-1 m-2'' @ [doubleQuote]) = doubleQuote
   \<and> last ([doubleQuote] @ js ''p-1 m-2'' @ [doubleQuote]) = doubleQuote"
proof -
  let ?n = "Literal (StringValue (js ''p-4px'' @ [0x000A] @ js ''m-2''))"
  let ?r = "[doubleQuote] @ js ''p-1 m-2'' @ [doubleQuote]"
  have h1: "isQuote doubleQuote" by (simp add: isQuote_def)
  have h2: "getText env_b ?n = [doubleQuote] @ (js ''p-4px'' @ [0x000A] @ js ''m-2'') @ [doubleQuote]"
    by (simp add: env_b_def example_env_def example_text_def)
  have nt: "\<not> isTemplateLiteral ?n" by simp
  then have h3: "isTemplateLiteral ?n \<longrightarrow> doubleQuote = backtick" by simp
  have m: "quoteMatch (getText env_b ?n) = None" by code_simp
  have h4: "NonCanonical ?n (js ''p-4px'') (Some (js ''p-1'')) (Some (Some ?r))
              \<in> set (processClasses env_b example_canonicalize [js ''p-4px'', js ''m-2''] ?n 16)"
    by code_simp
  from C3_fix_keeps_quote [OF h1 h2 h3 h4]
  have "hd ?r = doubleQuote \<and> last ?r = doubleQuote" by blast
  with h1 h2 nt m h4 show ?thesis by blast
qed

section \<open>The reports of one attribute\<close>

text \<open>
  Claim C10. Let the canonicalization function return a non-empty string whenever it
  returns, as the design system does, and let the issue list of the attribute have
  \<open>n \<ge> 1\<close> entries. Then there are exactly \<open>n\<close> reports, the \<open>k\<close>-th on the node with
  the data of the \<open>k\<close>-th issue, and the issues are in token order. Only the first
  report has a fix; the fix replaces the text of the node by the rewritten text, and is
  \<^verbatim>\<open>null\<close> when that text equals the original text. The rewritten class list holds the
  canonical form of every issue at the issue's index, so the one fix rewrites all \<open>n\<close>
  tokens.
\<close>

theorem C10_reports_and_single_fix:
  assumes "\<forall>c \<in> set classNames. \<forall>r. canonicalize rootFontSize c = Returns r
             \<longrightarrow> (\<exists>t. r = Some t \<and> t \<noteq> [])"
    and "length (collectIssues (canonicalize rootFontSize) classNames 0) \<ge> 1"
  shows "length (processClasses e canonicalize classNames classNameValue rootFontSize)
           = length (collectIssues (canonicalize rootFontSize) classNames 0)
    \<and> (\<forall>k < length (collectIssues (canonicalize rootFontSize) classNames 0).
          processClasses e canonicalize classNames classNameValue rootFontSize ! k
            = NonCanonical classNameValue
                (original (collectIssues (canonicalize rootFontSize) classNames 0 ! k))
                (canonical (collectIssues (canonicalize rootFontSize) classNames 0 ! k))
                (if k = 0
                 then Some (if fixedTextOf classNameValue (getText e classNameValue)
                                 (join [space] (fixedClassNames (canonicalize rootFontSize) classNames))
                               \<noteq> getText e classNameValue
                            then Some (fixedTextOf classNameValue (getText e classNameValue)
                                 (join [space] (fixedClassNames (canonicalize rootFontSize) classNames)))
                            else None)
                 else None))
    \<and> sorted_wrt (\<lambda>a b. index a < index b) (collectIssues (canonicalize rootFontSize) classNames 0)
    \<and> (\<forall>x \<in> set (collectIssues (canonicalize rootFontSize) classNames 0).
          original x = classNames ! index x
          \<and> canonical x = Some (fixedClassNames (canonicalize rootFontSize) classNames ! index x))"
proof -
  let ?issues = "collectIssues (canonicalize rootFontSize) classNames 0"
  let ?fixedText = "fixedTextOf classNameValue (getText e classNameValue)
                      (join [space] (fixedClassNames (canonicalize rootFontSize) classNames))"
  from assms(2) obtain x xs where iss: "?issues = x # xs" by (cases ?issues) auto
  have len: "length (processClasses e canonicalize classNames classNameValue rootFontSize)
               = length ?issues"
    by (simp add: processClasses_def Let_def iss)
  have nth: "\<And>k. k < length ?issues \<Longrightarrow>
          processClasses e canonicalize classNames classNameValue rootFontSize ! k
            = NonCanonical classNameValue (original (?issues ! k)) (canonical (?issues ! k))
                (if k = 0
                 then Some (if ?fixedText \<noteq> getText e classNameValue then Some ?fixedText else None)
                 else None)"
  proof -
    fix k assume "k < length ?issues"
    then show "processClasses e canonicalize classNames classNameValue rootFontSize ! k
            = NonCanonical classNameValue (original (?issues ! k)) (canonical (?issues ! k))
                (if k = 0
                 then Some (if ?fixedText \<noteq> getText e classNameValue then Some ?fixedText else None)
                 else None)"
      by (cases k) (simp_all add: processClasses_def Let_def iss)
  qed
  have rew: "\<And>x. x \<in> set ?issues \<Longrightarrow> original x = classNames ! index x
          \<and> canonical x = Some (fixedClassNames (canonicalize rootFontSize) classNames ! index x)"
  proof -
    fix x assume x: "x \<in> set ?issues"
    from collectIssues_index_bounds [OF x] have lt: "index x < length classNames" by simp
    from collectIssues_sound [OF x]
    have o: "original x = classNames ! index x"
      and r: "canonicalize rootFontSize (original x) = Returns (canonical x)" by auto
    from lt o have "original x \<in> set classNames" by simp
    with assms(1) r obtain t where t: "canonical x = Some t" "t \<noteq> []" by blast
    from fixed_at_issue [OF x t] o t
    show "original x = classNames ! index x
          \<and> canonical x = Some (fixedClassNames (canonicalize rootFontSize) classNames ! index x)"
      by simp
  qed
  from len nth rew collectIssues_sorted [of "canonicalize rootFontSize" classNames 0]
  show ?thesis by blast
qed

theorem C10_reports_and_single_fix_witness:
  "example_canonicalize 16 (js ''p-4px'') = Returns (Some (js ''p-1''))
   \<and> example_canonicalize 16 (js ''m-2'') = Returns (Some (js ''m-2''))
   \<and> example_canonicalize 16 (js ''m-2rem'') = Returns (Some (js ''m-8''))
   \<and> length (collectIssues (example_canonicalize 16) [js ''p-4px'', js ''m-2'', js ''m-2rem''] 0) \<ge> 1
   \<and> length (collectIssues (example_canonicalize 16) [js ''p-4px'', js ''m-2'', js ''m-2rem''] 0) = 2
   \<and> length (processClasses env_b example_canonicalize [js ''p-4px'', js ''m-2'', js ''m-2rem'']
        (Literal (StringValue (js ''p-4px m-2 m-2rem''))) 16)
       = length (collectIssues (example_canonicalize 16) [js ''p-4px'', js ''m-2'', js ''m-2rem''] 0)
   \<and> processClasses env_b example_canonicalize [js ''p-4px'', js ''m-2'', js ''m-2rem'']
        (Literal (StringValue (js ''p-4px m-2 m-2rem''))) 16
       = [NonCanonical (Literal (StringValue (js ''p-4px m-2 m-2rem''))) (js ''p-4px'')
            (Some (js ''p-1''))
            (Some (Some ([doubleQuote] @ js ''p-1 m-2 m-8'' @ [doubleQuote]))),
          NonCanonical (Literal (StringValue (js ''p-4px m-2 m-2rem''))) (js ''m-2rem'')
            (Some (js ''m-8'')) None]"
proof -
  let ?canon = "example_canonicalize 16"
  let ?cs = "[js ''p-4px'', js ''m-2'', js ''m-2rem'']"
  let ?n = "Literal (StringValue (js ''p-4px m-2 m-2rem''))"
  have c1: "?canon (js ''p-4px'') = Returns (Some (js ''p-1''))" by code_simp
  have c2: "?canon (js ''m-2'') = Returns (Some (js ''m-2''))" by code_simp
  have c3: "?canon (js ''m-2rem'') = Returns (Some (js ''m-8''))" by code_simp
  have ne: "js ''p-1'' \<noteq> []" "js ''m-2'' \<noteq> []" "js ''m-8'' \<noteq> []" by (simp_all add: js_def)
  have h1: "\<forall>c \<in> set ?cs. \<forall>r. ?canon c = Returns r \<longrightarrow> (\<exists>t. r = Some t \<and> t \<noteq> [])"
    using c1 c2 c3 ne by simp
  have two: "length (collectIssues ?canon ?cs 0) = 2" by code_simp
  then have h2: "length (collectIssues ?canon ?cs 0) \<ge> 1" by simp
  from C10_reports_and_single_fix [of ?cs example_canonicalize 16 env_b ?n, OF h1 h2]
  have l: "length (processClasses env_b example_canonicalize ?cs ?n 16)
             = length (collectIssues ?canon ?cs 0)" by blast
  have v: "processClasses env_b example_canonicalize ?cs ?n 16
       = [NonCanonical ?n (js ''p-4px'') (Some (js ''p-1''))
            (Some (Some ([doubleQuote] @ js ''p-1 m-2 m-8'' @ [doubleQuote]))),
          NonCanonical ?n (js ''m-2rem'') (Some (js ''m-8'')) None]"
    by code_simp
  from c1 c2 c3 h2 two l v show ?thesis by blast
qed

section \<open>Missing configuration\<close>

lemma visitAll_no_visitor: "visitAll None s attrs = (s, [])"
  by (induction attrs) auto

text \<open>
  Claim C4. When the rule is created without a \<^verbatim>\<open>cssPath\<close> (no options object, no such
  property, or the empty string), creating it makes exactly one report, the
  configuration error at line 1, column 0, and installs no visitor. Whatever attributes
  the file holds, linting it gives that one report and nothing else, and the module state
  is not touched.
\<close>

theorem C4_missing_cssPath:
  assumes "opts = None
     \<or> (\<exists>os. opts = Some os \<and> (options_cssPath os = None \<or> options_cssPath os = Some []))"
  shows "create opts = ([CssNotFound 1 0 (js ''not specified'')], None)
     \<and> lintFile opts s attrs = (s, [CssNotFound 1 0 (js ''not specified'')])"
proof -
  from assms have c: "create opts = ([CssNotFound 1 0 (js ''not specified'')], None)"
    by (auto simp: create_def)
  then show ?thesis
    by (simp add: lintFile_def visitAll_no_visitor)
qed

theorem C4_missing_cssPath_witness:
  "options_cssPath \<lparr>options_cssPath = None, options_rootFontSize = Some 16\<rparr> = None
   \<and> create (Some \<lparr>options_cssPath = None, options_rootFontSize = Some 16\<rparr>)
       = ([CssNotFound 1 0 (js ''not specified'')], None)
   \<and> lintFile (Some \<lparr>options_cssPath = None, options_rootFontSize = Some 16\<rparr>) loaded_a
        [(env_b, example_attribute (Literal (StringValue (js ''p-4px'')))),
         (env_a, example_attribute (Literal (StringValue (js ''m-2rem''))))]
       = (loaded_a, [CssNotFound 1 0 (js ''not specified'')])"
proof -
  let ?opts = "Some \<lparr>options_cssPath = None, options_rootFontSize = Some 16\<rparr>"
  have h: "?opts = None
     \<or> (\<exists>os. ?opts = Some os \<and> (options_cssPath os = None \<or> options_cssPath os = Some []))"
    by simp
  from C4_missing_cssPath [OF h] show ?thesis by simp
qed

section \<open>The cached failure\<close>









section \<open>The key of the cache\<close>

text \<open>
  Claim C7, as stated, fails. The cache is keyed by the configured \<open>cssPath\<close> string, not
  by the path it resolves to. With the relative \<^verbatim>\<open>t.css\<close>, a file in \<^verbatim>\<open>/app/a\<close>
  resolves it to \<^verbatim>\<open>/app/a/t.css\<close> and a file in \<^verbatim>\<open>/app/b\<close> to \<^verbatim>\<open>/app/b/t.css\<close>: the
  resolved path has changed, and the handle loaded from \<^verbatim>\<open>/app/a\<close> is returned all the
  same. And with \<^verbatim>\<open>/app/t.css\<close> loaded, the relative \<^verbatim>\<open>t.css\<close> resolves to the very same
  path, and the cached handle is dropped and a new load started.
\<close>

theorem C7_resolved_path_key_counterexample:
  "resolveCssPath env_a (js ''t.css'') = Inr (Some (js ''/app/a/t.css''))
   \<and> resolveCssPath env_b (js ''t.css'') = Inr (Some (js ''/app/b/t.css''))
   \<and> resolveCssPath env_a (js ''t.css'') \<noteq> resolveCssPath env_b (js ''t.css'')
   \<and> loaded_a = \<lparr>designSystemCache = Some (DesignSystem 1),
                   designSystemPromise = Some (LoadPromise (js ''@theme'') (js ''/app/a'')),
                   designSystemError = None, cssPathCache = Some (js ''t.css'')\<rparr>
   \<and> getDesignSystemSync env_b loaded_a (js ''t.css'') = (loaded_a, Inr (Some (DesignSystem 1)))
   \<and> resolveCssPath env_root (js ''/app/t.css'') = Inr (Some (js ''/app/t.css''))
   \<and> resolveCssPath env_root (js ''t.css'') = Inr (Some (js ''/app/t.css''))
   \<and> loaded_root = \<lparr>designSystemCache = Some (DesignSystem 2),
                      designSystemPromise = Some (LoadPromise (js ''@theme'') (js ''/app'')),
                      designSystemError = None, cssPathCache = Some (js ''/app/t.css'')\<rparr>
   \<and> getDesignSystemSync env_root loaded_root (js ''t.css'')
       = (\<lparr>designSystemCache = None,
            designSystemPromise = Some (LoadPromise (js ''@theme'') (js ''/app'')),
            designSystemError = None, cssPathCache = Some (js ''t.css'')\<rparr>, Inr None)"
  by code_simp

text \<open>
  Claim C7, amended. The cache is keyed by the configured \<open>cssPath\<close>. When the lookup is
  called with the \<open>cssPath\<close> it was last called with, nothing is invalidated, whatever the
  environment resolves the path to: a cached handle is returned, and a cached error or a
  pending promise gives \<^verbatim>\<open>null\<close>, each with the state unchanged. When it is called with
  another \<open>cssPath\<close>, handle, promise and error are dropped: the call does what it does on
  the reset state, no handle is returned or cached, and the new \<open>cssPath\<close> is recorded.
\<close>

theorem C7_configured_path_key:
  "(cssPathCache s = Some cssPath \<longrightarrow>
      (\<forall>ds. designSystemCache s = Some ds
         \<longrightarrow> getDesignSystemSync e s cssPath = (s, Inr (Some ds)))
      \<and> (designSystemCache s = None \<and> designSystemError s \<noteq> None
         \<longrightarrow> getDesignSystemSync e s cssPath = (s, Inr None))
      \<and> (designSystemCache s = None \<and> designSystemPromise s \<noteq> None
         \<longrightarrow> getDesignSystemSync e s cssPath = (s, Inr None)))
   \<and> (cssPathCache s \<noteq> Some cssPath \<longrightarrow>
        getDesignSystemSync e s cssPath = getDesignSystemSync e (reset_state cssPath) cssPath
        \<and> snd (getDesignSystemSync e s cssPath) = Inr None
        \<and> designSystemCache (fst (getDesignSystemSync e s cssPath)) = None
        \<and> cssPathCache (fst (getDesignSystemSync e s cssPath)) = Some cssPath)"
  by (auto simp: getDesignSystemSync_def Let_def reset_state_def loadAttempt_def
      split: option.splits sum.splits)

theorem C7_configured_path_key_witness:
  "cssPathCache loaded_a = Some (js ''t.css'')
   \<and> designSystemCache loaded_a = Some (DesignSystem 1)
   \<and> getDesignSystemSync env_b loaded_a (js ''t.css'') = (loaded_a, Inr (Some (DesignSystem 1)))
   \<and> cssPathCache loaded_a \<noteq> Some (js ''/app/a/t.css'')
   \<and> getDesignSystemSync env_a loaded_a (js ''/app/a/t.css'')
       = getDesignSystemSync env_a (reset_state (js ''/app/a/t.css'')) (js ''/app/a/t.css'')
   \<and> snd (getDesignSystemSync env_a loaded_a (js ''/app/a/t.css'')) = Inr None
   \<and> designSystemCache (fst (getDesignSystemSync env_a loaded_a (js ''/app/a/t.css''))) = None"
proof -
  have p: "cssPathCache loaded_a = Some (js ''t.css'')" by code_simp
  have c: "designSystemCache loaded_a = Some (DesignSystem 1)" by code_simp
  have d: "cssPathCache loaded_a \<noteq> Some (js ''/app/a/t.css'')" by code_simp
  from C7_configured_path_key [of loaded_a "js ''t.css''" env_b] p c
  have same: "getDesignSystemSync env_b loaded_a (js ''t.css'')
                = (loaded_a, Inr (Some (DesignSystem 1)))"
    by blast
  from C7_configured_path_key [of loaded_a "js ''/app/a/t.css''" env_a] d
  have other: "getDesignSystemSync env_a loaded_a (js ''/app/a/t.css'')
       = getDesignSystemSync env_a (reset_state (js ''/app/a/t.css'')) (js ''/app/a/t.css'')
   \<and> snd (getDesignSystemSync env_a loaded_a (js ''/app/a/t.css'')) = Inr None
   \<and> designSystemCache (fst (getDesignSystemSync env_a loaded_a (js ''/app/a/t.css''))) = None"
    by blast
  from p c same d other show ?thesis by blast
qed

section \<open>A load in flight\<close>

text \<open>
  Claim C8. While a load is in flight for the current \<open>cssPath\<close> (a promise exists, no
  handle is cached, no error is recorded), the synchronous lookup returns \<^verbatim>\<open>null\<close> at
  once and leaves the state as it is. The call that starts the load (stylesheet found
  and read) records the promise and returns \<^verbatim>\<open>null\<close> as well.
\<close>

theorem C8_pending_load_returns_null:
  "(cssPathCache s = Some cssPath \<and> designSystemPromise s \<noteq> None
      \<and> designSystemCache s = None \<and> designSystemError s = None
      \<longrightarrow> getDesignSystemSync e s cssPath = (s, Inr None))
   \<and> (cssPathCache s = Some cssPath \<and> designSystemPromise s = None
      \<and> designSystemCache s = None \<and> designSystemError s = None
      \<and> resolveCssPath e cssPath = Inr (Some rp) \<and> rp \<noteq> [] \<and> existsSync e rp
      \<and> readFileSync e rp = Inr content
      \<longrightarrow> getDesignSystemSync e s cssPath
            = (s\<lparr>designSystemPromise := Some (LoadPromise content (dirname e rp))\<rparr>, Inr None))"
  by (auto simp: getDesignSystemSync_def Let_def loadAttempt_def)

theorem C8_pending_load_returns_null_witness:
  "cssPathCache loading_a = Some (js ''t.css'')
   \<and> designSystemPromise loading_a = Some (LoadPromise (js ''@theme'') (js ''/app/a''))
   \<and> designSystemPromise loading_a \<noteq> None
   \<and> designSystemCache loading_a = None \<and> designSystemError loading_a = None
   \<and> getDesignSystemSync env_a loading_a (js ''t.css'') = (loading_a, Inr None)"
proof -
  have p: "cssPathCache loading_a = Some (js ''t.css'')" by code_simp
  have q: "designSystemPromise loading_a = Some (LoadPromise (js ''@theme'') (js ''/app/a''))"
    by code_simp
  then have q': "designSystemPromise loading_a \<noteq> None" by simp
  have c: "designSystemCache loading_a = None" by code_simp
  have r: "designSystemError loading_a = None" by code_simp
  from C8_pending_load_returns_null [of loading_a "js ''t.css''" env_a] p q' c r
  have "getDesignSystemSync env_a loading_a (js ''t.css'') = (loading_a, Inr None)"
    by blast
  with p q q' c r show ?thesis by blast
qed

section \<open>Exceptions of the synchronous lookup\<close>

text \<open>
  Claim C9. The synchronous lookup never hands an exception to its caller: for every
  environment, state and \<open>cssPath\<close> it returns a handle or \<^verbatim>\<open>null\<close>. When its \<^verbatim>\<open>try\<close> block is
  reached and resolving the path or reading the stylesheet throws, the exception is
  stored as the cached error and \<^verbatim>\<open>null\<close> is returned; when the stylesheet is not found,
  the error \<^verbatim>\<open>CSS file not found\<close> is stored and \<^verbatim>\<open>null\<close> is returned.
\<close>

theorem C9_sync_lookup_never_throws:
  "(\<exists>s' r. getDesignSystemSync e s cssPath = (s', Inr r))
   \<and> (\<forall>s1 err rp.
        s1 = (if cssPathCache s \<noteq> Some cssPath then reset_state cssPath else s)
        \<and> designSystemCache s1 = None \<and> designSystemError s1 = None
        \<and> designSystemPromise s1 = None
        \<and> (resolveCssPath e cssPath = Inl err
            \<or> (resolveCssPath e cssPath = Inr (Some rp) \<and> rp \<noteq> [] \<and> existsSync e rp
                \<and> readFileSync e rp = Inl err))
        \<longrightarrow> getDesignSystemSync e s cssPath = (s1\<lparr>designSystemError := Some err\<rparr>, Inr None))
   \<and> (\<forall>s1 rp.
        s1 = (if cssPathCache s \<noteq> Some cssPath then reset_state cssPath else s)
        \<and> designSystemCache s1 = None \<and> designSystemError s1 = None
        \<and> designSystemPromise s1 = None
        \<and> (resolveCssPath e cssPath = Inr None
            \<or> (resolveCssPath e cssPath = Inr (Some rp) \<and> (rp = [] \<or> \<not> existsSync e rp)))
        \<longrightarrow> getDesignSystemSync e s cssPath
              = (s1\<lparr>designSystemError := Some (Error (js ''CSS file not found: '' @ cssPath))\<rparr>,
                 Inr None))"
  by (auto simp: getDesignSystemSync_def Let_def loadAttempt_def reset_state_def
      split: option.splits sum.splits)

theorem C9_sync_lookup_never_throws_witness:
  "reset_state (js ''t.css'')
     = (if cssPathCache initial_state \<noteq> Some (js ''t.css'')
        then reset_state (js ''t.css'') else initial_state)
   \<and> designSystemCache (reset_state (js ''t.css'')) = None
   \<and> designSystemError (reset_state (js ''t.css'')) = None
   \<and> designSystemPromise (reset_state (js ''t.css'')) = None
   \<and> resolveCssPath env_unreadable (js ''t.css'') = Inr (Some (js ''/app/a/t.css''))
   \<and> js ''/app/a/t.css'' \<noteq> []
   \<and> existsSync env_unreadable (js ''/app/a/t.css'')
   \<and> readFileSync env_unreadable (js ''/app/a/t.css'') = Inl (Error (js ''EISDIR''))
   \<and> getDesignSystemSync env_unreadable initial_state (js ''t.css'')
       = ((reset_state (js ''t.css''))\<lparr>designSystemError := Some (Error (js ''EISDIR''))\<rparr>,
          Inr None)"
proof -
  have a: "reset_state (js ''t.css'')
     = (if cssPathCache initial_state \<noteq> Some (js ''t.css'')
        then reset_state (js ''t.css'') else initial_state)"
    by (simp add: initial_state_def)
  have b: "designSystemCache (reset_state (js ''t.css'')) = None"
    "designSystemError (reset_state (js ''t.css'')) = None"
    "designSystemPromise (reset_state (js ''t.css'')) = None"
    by (simp_all add: reset_state_def)
  have r: "resolveCssPath env_unreadable (js ''t.css'') = Inr (Some (js ''/app/a/t.css''))"
    by code_simp
  have n: "js ''/app/a/t.css'' \<noteq> []" by (simp add: js_def)
  have x: "existsSync env_unreadable (js ''/app/a/t.css'')" by code_simp
  have t: "readFileSync env_unreadable (js ''/app/a/t.css'') = Inl (Error (js ''EISDIR''))"
    by code_simp
  from C9_sync_lookup_never_throws [of env_unreadable initial_state "js ''t.css''"] a b r n x t
  have "getDesignSystemSync env_unreadable initial_state (js ''t.css'')
       = ((reset_state (js ''t.css''))\<lparr>designSystemError := Some (Error (js ''EISDIR''))\<rparr>,
          Inr None)"
    by blast
  with a b r n x t show ?thesis by blast
qed

end
